theory Spec2Isabelle
  imports
    Main
    "HOL-Library.AList"
    "HOL-Library.Char_ord"
    "HOL-Library.List_Lexorder"
begin

section \<open>The include\_vars\_dir action plugin\<close>

text \<open>
  A shallow embedding of \<^verbatim>\<open>action_plugins/include_vars_dir.py\<close>: the class
  \<^verbatim>\<open>ActionModule\<close> with its methods \<^verbatim>\<open>_set_args\<close>, \<^verbatim>\<open>run\<close>,
  \<^verbatim>\<open>_traverse_dir_depth\<close>, \<^verbatim>\<open>_ignore_file\<close> and \<^verbatim>\<open>_load_files\<close>.
  The built-ins follow Python 3: \<^verbatim>\<open>str\<close> is the text type, and an order comparison
  between an integer and a value of another type raises \<^verbatim>\<open>TypeError\<close>.
\<close>

subsection \<open>Python values, dictionaries and exceptions\<close>

text \<open>
  The values that task arguments and parsed files are made of. A dictionary is an
  association list in insertion order; keys are compared structurally (Python also
  identifies the keys \<^verbatim>\<open>True\<close> and \<^verbatim>\<open>1\<close>, which no definition below relies on).
\<close>

datatype pyval =
    PNone
  | PBool bool
  | PInt int
  | PStr string
  | PList "pyval list"
  | PDict "(pyval \<times> pyval) list"

type_synonym pydict = "(pyval \<times> pyval) list"

text \<open>
  The exceptions that leave the plugin. \<open>AnsibleError\<close> is raised by the plugin itself;
  \<open>ReError\<close> is \<^verbatim>\<open>re.error\<close> from \<^verbatim>\<open>re.compile\<close>; \<open>LoaderError\<close> stands for
  whatever the host's loader raises; the others are raised by the interpreter.
\<close>

datatype error =
    AnsibleError string
  | ReError string
  | AttributeError string
  | TypeError string
  | LoaderError string

text \<open>Truth value of a Python object, as \<^verbatim>\<open>if x:\<close> and \<^verbatim>\<open>not x\<close> test it.\<close>

fun truthy :: "pyval \<Rightarrow> bool" where
  "truthy PNone = False"
| "truthy (PBool b) = b"
| "truthy (PInt i) = (i \<noteq> 0)"
| "truthy (PStr s) = (s \<noteq> [])"
| "truthy (PList xs) = (xs \<noteq> [])"
| "truthy (PDict d) = (d \<noteq> [])"

text \<open>\<^verbatim>\<open>d.get(k, default)\<close>, \<^verbatim>\<open>d[k] = v\<close> and \<^verbatim>\<open>d.update(e)\<close>.\<close>

definition dict_get :: "pydict \<Rightarrow> pyval \<Rightarrow> pyval \<Rightarrow> pyval" where
  "dict_get d k dflt = (case map_of d k of None \<Rightarrow> dflt | Some v \<Rightarrow> v)"

definition dict_set :: "pydict \<Rightarrow> pyval \<Rightarrow> pyval \<Rightarrow> pydict" where
  "dict_set d k v = AList.update k v d"

definition dict_update :: "pydict \<Rightarrow> pydict \<Rightarrow> pydict" where
  "dict_update d e = fold (\<lambda>kv acc. AList.update (fst kv) (snd kv) acc) e d"

text \<open>
  Lists and dictionaries are unhashable: using one as a dictionary key raises
  \<^verbatim>\<open>TypeError\<close>.
\<close>

fun hashable :: "pyval \<Rightarrow> bool" where
  "hashable (PList xs) = False"
| "hashable (PDict d) = False"
| "hashable v = True"

text \<open>
  \<^verbatim>\<open>s.split()\<close> without arguments: the words between runs of whitespace, none of them
  empty. The whitespace characters are those of \<^verbatim>\<open>str.isspace\<close> in the ASCII range.
\<close>

definition is_space :: "char \<Rightarrow> bool" where
  "is_space c = (c \<in> set [CHR '' '', CHR 0x09, CHR 0x0A, CHR 0x0B, CHR 0x0C, CHR 0x0D,
                           CHR 0x1C, CHR 0x1D, CHR 0x1E, CHR 0x1F])"

fun split_ws :: "string \<Rightarrow> string \<Rightarrow> string list" where
  "split_ws [] w = (if w = [] then [] else [w])"
| "split_ws (c # cs) w =
     (if is_space c then (if w = [] then split_ws cs [] else w # split_ws cs [])
      else split_ws cs (w @ [c]))"

definition py_split :: "string \<Rightarrow> string list" where
  "py_split s = split_ws s []"

text \<open>\<^verbatim>\<open>os.path.join(a, b)\<close> of \<^verbatim>\<open>posixpath\<close>; with three arguments it is applied twice.\<close>

definition path_join :: "string \<Rightarrow> string \<Rightarrow> string" where
  "path_join a b =
     (if b \<noteq> [] \<and> hd b = CHR ''/'' then b
      else if a = [] \<or> last a = CHR ''/'' then a @ b
      else a @ ''/'' @ b)"

subsection \<open>The host: interpreter, regular expressions, file system, loader\<close>

text \<open>
  What the plugin calls and does not define is a parameter of the model:
  \<^item> \<open>str_of\<close>: \<^verbatim>\<open>str(v)\<close> of a value that is not a string (used by \<^verbatim>\<open>format\<close>);
  \<^item> \<open>re_valid\<close>: whether \<^verbatim>\<open>re\<close> compiles the pattern (otherwise it raises \<^verbatim>\<open>re.error\<close>);
  \<^item> \<open>re_search\<close>: whether \<^verbatim>\<open>re.search(pattern, text)\<close> finds a match;
  \<^item> \<open>fs_exists\<close>: \<^verbatim>\<open>os.path.exists\<close>;
  \<^item> \<open>fs_walk\<close>: \<^verbatim>\<open>list(os.walk(top))\<close>, triples of directory path, sub-directory
    names and file names;
  \<^item> \<open>loader_get_file_contents\<close>, \<open>loader_load\<close>: \<^verbatim>\<open>self._loader._get_file_contents\<close>
    and \<^verbatim>\<open>self._loader.load\<close>;
  \<^item> \<open>super_run\<close>: the dictionary that \<^verbatim>\<open>ActionBase.run\<close> returns.
\<close>

record host =
  str_of :: "pyval \<Rightarrow> string"
  re_valid :: "string \<Rightarrow> bool"
  re_search :: "string \<Rightarrow> string \<Rightarrow> bool"
  fs_exists :: "string \<Rightarrow> bool"
  fs_walk :: "string \<Rightarrow> (string \<times> string list \<times> string list) list"
  loader_get_file_contents :: "string \<Rightarrow> error + (string \<times> bool)"
  loader_load :: "string \<Rightarrow> bool \<Rightarrow> error + pyval"
  super_run :: pydict

text \<open>\<^verbatim>\<open>'{0}'.format(v)\<close>: a string is inserted as it is, any other value through \<^verbatim>\<open>str\<close>.\<close>

definition fmt :: "host \<Rightarrow> pyval \<Rightarrow> string" where
  "fmt h v = (case v of PStr s \<Rightarrow> s | _ \<Rightarrow> str_of h v)"

text \<open>
  The task: \<^verbatim>\<open>self._task.args\<close>, \<^verbatim>\<open>self._task._ds\<close> and, when the task runs inside a
  role, \<^verbatim>\<open>self._task._role._role_path\<close>.
\<close>

record task =
  task_args :: pydict
  task_ds :: pyval
  task_role :: "string option"

text \<open>The instance attributes that \<^verbatim>\<open>_set_args\<close> assigns.\<close>

record settings =
  return_results_as_name :: pyval
  source_dir :: pyval
  depth :: pyval
  files_matching :: pyval
  matcher :: "string option"
  ignore_files :: pyval

subsection \<open>\<^verbatim>\<open>_set_args\<close>\<close>

definition IGNORE_FILES :: "pyval list" where
  "IGNORE_FILES = [PStr ''.*.md'', PStr ''.*.py'', PStr ''.*.pyc'']"

definition VALID_ARGUMENTS :: "pyval list" where
  "VALID_ARGUMENTS =
     [PStr ''name'', PStr ''dir'', PStr ''depth'', PStr ''files_matching'', PStr ''ignore_files'']"

definition failed_result :: "string \<Rightarrow> pydict" where
  "failed_result msg = [(PStr ''failed'', PBool True), (PStr ''message'', PStr msg)]"

definition missing_dir_prefix :: string where
  "missing_dir_prefix =
     ''No directory was found for the included vars. '' @
     ''Use `- include_vars_dir: <dirname>` or the `dir:` option '' @
     ''to specify the vars dirname.''"

text \<open>
  Lines 61 to 70: the defaults are appended to the list, then a missing directory raises.
\<close>

definition set_args_finish ::
    "host \<Rightarrow> task \<Rightarrow> settings \<Rightarrow> pyval list \<Rightarrow> error + (pydict option \<times> settings option)" where
  "set_args_finish h t st xs =
     (if \<not> truthy (source_dir st)
      then Inl (AnsibleError (missing_dir_prefix @ fmt h (task_ds t)))
      else Inr (None, Some (st\<lparr>ignore_files := PList (xs @ IGNORE_FILES)\<rparr>)))"

text \<open>
  The method returns \<^verbatim>\<open>None\<close> or a failure dictionary, and leaves the instance with
  the attributes it has assigned so far: none of them when it returns at line 41
  (\<open>None\<close> in the second component), all of them otherwise. \<^verbatim>\<open>re.compile\<close> raises on a
  pattern it cannot compile, and \<^verbatim>\<open>extend\<close> exists on lists only.
\<close>

definition set_args :: "host \<Rightarrow> task \<Rightarrow> error + (pydict option \<times> settings option)" where
  "set_args h t =
     (case find (\<lambda>arg. arg \<notin> set VALID_ARGUMENTS) (map fst (task_args t)) of
        Some arg \<Rightarrow>
          Inr (Some (failed_result (fmt h arg @ '' is not a valid option in debug'')), None)
      | None \<Rightarrow>
          (let fm = dict_get (task_args t) (PStr ''files_matching'') PNone in
           if truthy fm \<and> \<not> re_valid h (fmt h fm) then Inl (ReError (fmt h fm))
           else
             (let st = \<lparr> return_results_as_name = dict_get (task_args t) (PStr ''name'') PNone,
                         source_dir = dict_get (task_args t) (PStr ''dir'') PNone,
                         depth = dict_get (task_args t) (PStr ''depth'') (PInt 0),
                         files_matching = fm,
                         matcher = (if truthy fm then Some (fmt h fm) else None),
                         ignore_files = dict_get (task_args t) (PStr ''ignore_files'') (PList []) \<rparr>
              in case ignore_files st of
                   PStr s \<Rightarrow> set_args_finish h t st (map PStr (py_split s))
                 | PDict d \<Rightarrow>
                     Inr (Some (failed_result (fmt h (ignore_files st) @ '' must be a list'')),
                          Some st)
                 | PList xs \<Rightarrow> set_args_finish h t st xs
                 | _ \<Rightarrow> Inl (AttributeError ''extend''))))"

subsection \<open>\<^verbatim>\<open>_traverse_dir_depth\<close>\<close>

text \<open>
  \<^verbatim>\<open>current_depth <= self.depth\<close> and \<^verbatim>\<open>self.depth == 0\<close>. A Boolean is an integer in
  Python; any other type cannot be ordered against an integer.
\<close>

fun depth_le :: "int \<Rightarrow> pyval \<Rightarrow> error + bool" where
  "depth_le c (PInt d) = Inr (c \<le> d)"
| "depth_le c (PBool b) = Inr (c \<le> (if b then 1 else 0))"
| "depth_le c v = Inl (TypeError ''<='')"

fun depth_is_zero :: "pyval \<Rightarrow> bool" where
  "depth_is_zero (PInt d) = (d = 0)"
| "depth_is_zero (PBool b) = (\<not> b)"
| "depth_is_zero v = False"

text \<open>
  The loop of the generator: the counter is incremented, the directory is yielded with
  its file names sorted, or the loop is left. A comparison that raises does so at the
  first directory, before anything is yielded, so the list of everything yielded is the
  generator's whole effect.
\<close>

fun traverse_loop ::
    "pyval \<Rightarrow> int \<Rightarrow> (string \<times> string list \<times> string list) list
       \<Rightarrow> error + (string \<times> string list) list" where
  "traverse_loop dp cur [] = Inr []"
| "traverse_loop dp cur ((current_root, current_dir, current_files) # rest) =
     (let current_depth = cur + 1 in
      case depth_le current_depth dp of
        Inl e \<Rightarrow> Inl e
      | Inr le \<Rightarrow>
          if le \<or> depth_is_zero dp then
            (case traverse_loop dp current_depth rest of
               Inl e \<Rightarrow> Inl e
             | Inr ys \<Rightarrow> Inr ((current_root, sort current_files) # ys))
          else Inr [])"

definition traverse_dir_depth ::
    "host \<Rightarrow> string \<Rightarrow> pyval \<Rightarrow> error + (string \<times> string list) list" where
  "traverse_dir_depth h sd dp = traverse_loop dp 0 (sort_key fst (fs_walk h sd))"

subsection \<open>\<^verbatim>\<open>_ignore_file\<close>\<close>

text \<open>
  Each pattern is formatted into \<^verbatim>\<open>'{0}$'\<close> and searched for in the file name; any
  exception of the search becomes an \<open>AnsibleError\<close>.
\<close>

fun ignore_loop :: "host \<Rightarrow> pyval list \<Rightarrow> string \<Rightarrow> error + bool" where
  "ignore_loop h [] filename = Inr False"
| "ignore_loop h (file_type # rest) filename =
     (if \<not> re_valid h (fmt h file_type @ ''$'')
      then Inl (AnsibleError (''Invalid regular expression: '' @ fmt h file_type))
      else if re_search h (fmt h file_type @ ''$'') filename then Inr True
      else ignore_loop h rest filename)"

text \<open>
  Iterating \<^verbatim>\<open>self.ignore_files\<close>: a list gives its elements, a dictionary its keys, a
  string its characters; nothing else can be iterated.
\<close>

definition ignore_file :: "host \<Rightarrow> settings \<Rightarrow> string \<Rightarrow> error + bool" where
  "ignore_file h st filename =
     (case ignore_files st of
        PList xs \<Rightarrow> ignore_loop h xs filename
      | PDict d \<Rightarrow> ignore_loop h (map fst d) filename
      | PStr s \<Rightarrow> ignore_loop h (map (\<lambda>c. PStr [c]) s) filename
      | _ \<Rightarrow> Inl (TypeError ''iter''))"

subsection \<open>\<^verbatim>\<open>_load_files\<close>\<close>

text \<open>
  The local variables \<^verbatim>\<open>results\<close>, \<^verbatim>\<open>failed\<close>, \<^verbatim>\<open>err_msg\<close>, and the instance
  attribute \<^verbatim>\<open>self.show_content\<close>, which the method clears.
\<close>

record load_state =
  results :: pydict
  failed :: bool
  err_msg :: string
  show_content :: bool

text \<open>Lines 180 to 195: the file is read and parsed, and its mapping merged.\<close>

definition load_one :: "host \<Rightarrow> string \<Rightarrow> load_state \<Rightarrow> error + load_state" where
  "load_one h filepath s =
     (case loader_get_file_contents h filepath of
        Inl e \<Rightarrow> Inl e
      | Inr (raw, show) \<Rightarrow>
          (case loader_load h raw show of
             Inl e \<Rightarrow> Inl e
           | Inr data \<Rightarrow>
               (let s1 = (if \<not> show then s\<lparr>show_content := False\<rparr> else s);
                    data1 = (if data = PNone then PDict [] else data)
                in case data1 of
                     PDict d \<Rightarrow> Inr (s1\<lparr>results := dict_update (results s1) d\<rparr>)
                   | _ \<Rightarrow>
                       Inr (s1\<lparr>failed := True,
                               err_msg := filepath @ '' must be stored as a dictionary/hash''\<rparr>))))"

text \<open>
  Lines 174 to 176: \<^verbatim>\<open>stop_iter\<close> is set when a name pattern is configured and the file
  name does not match it. \<^verbatim>\<open>self.matcher\<close> is \<^verbatim>\<open>None\<close> when \<^verbatim>\<open>self.files_matching\<close>
  is false, and is not called then.
\<close>

definition stop_iter_of :: "host \<Rightarrow> settings \<Rightarrow> string \<Rightarrow> error + bool" where
  "stop_iter_of h st filename =
     (if truthy (files_matching st) then
        (case matcher st of
           None \<Rightarrow> Inl (AttributeError ''search'')
         | Some p \<Rightarrow> Inr (\<not> re_search h p filename))
      else Inr False)"

text \<open>The loop over the file names of one directory.\<close>

fun load_loop ::
    "host \<Rightarrow> task \<Rightarrow> settings \<Rightarrow> string \<Rightarrow> string list \<Rightarrow> load_state \<Rightarrow> error + load_state" where
  "load_loop h t st root_dir [] s = Inr s"
| "load_loop h t st root_dir (filename # rest) s =
     (if task_role t \<noteq> None \<and> filename = ''main.yml'' then load_loop h t st root_dir rest s
      else
        (case stop_iter_of h st filename of
           Inl e \<Rightarrow> Inl e
         | Inr stop_iter \<Rightarrow>
             if \<not> stop_iter \<and> \<not> failed s then
               (if fs_exists h (path_join root_dir filename) then
                  (case ignore_file h st filename of
                     Inl e \<Rightarrow> Inl e
                   | Inr True \<Rightarrow> load_loop h t st root_dir rest s
                   | Inr False \<Rightarrow>
                       (case load_one h (path_join root_dir filename) s of
                          Inl e \<Rightarrow> Inl e
                        | Inr s' \<Rightarrow> load_loop h t st root_dir rest s'))
                else load_loop h t st root_dir rest s)
             else load_loop h t st root_dir rest s))"

text \<open>
  The method starts from an empty dictionary and no failure; \<open>sc\<close> is
  \<^verbatim>\<open>self.show_content\<close> on entry.
\<close>

definition load_files ::
    "host \<Rightarrow> task \<Rightarrow> settings \<Rightarrow> string \<Rightarrow> string list \<Rightarrow> bool \<Rightarrow> error + load_state" where
  "load_files h t st root_dir var_files sc =
     load_loop h t st root_dir var_files
       \<lparr>results = [], failed = False, err_msg = [], show_content = sc\<rparr>"

subsection \<open>\<^verbatim>\<open>run\<close>\<close>

text \<open>
  Lines 82 to 92: inside a role the directory is taken below the role's \<^verbatim>\<open>vars\<close>.
  \<^verbatim>\<open>os.path.join\<close> and \<^verbatim>\<open>os.path.exists\<close> are modelled on strings; for every other
  value of \<^verbatim>\<open>dir\<close> the model raises \<^verbatim>\<open>TypeError\<close>, as Python does for all of them but
  integers outside a role (which \<^verbatim>\<open>os.path.exists\<close> reads as file descriptors).
\<close>

definition resolve_source_dir :: "task \<Rightarrow> pyval \<Rightarrow> error + string" where
  "resolve_source_dir t sd =
     (case sd of
        PStr s \<Rightarrow>
          (case task_role t of
             None \<Rightarrow> Inr s
           | Some role_path \<Rightarrow>
               if s = ''vars'' then Inr (path_join role_path s)
               else Inr (path_join (path_join role_path ''vars'') s))
      | _ \<Rightarrow> Inl (TypeError ''path''))"

text \<open>
  Lines 94 to 103: the loop over the yielded directories. It returns the merged
  \<^verbatim>\<open>results\<close>, the \<^verbatim>\<open>result\<close> dictionary and \<^verbatim>\<open>self.show_content\<close>.
\<close>

fun run_loop ::
    "host \<Rightarrow> task \<Rightarrow> settings \<Rightarrow> (string \<times> string list) list \<Rightarrow> pydict \<Rightarrow> pydict \<Rightarrow> bool
       \<Rightarrow> error + (pydict \<times> pydict \<times> bool)" where
  "run_loop h t st [] res result sc = Inr (res, result, sc)"
| "run_loop h t st ((root_dir, filenames) # rest) res result sc =
     (case load_files h t st root_dir filenames sc of
        Inl e \<Rightarrow> Inl e
      | Inr s \<Rightarrow>
          if \<not> failed s then run_loop h t st rest (dict_update res (results s)) result (show_content s)
          else Inr (res,
                    dict_set (dict_set result (PStr ''failed'') (PBool (failed s)))
                      (PStr ''message'') (PStr (err_msg s)),
                    show_content s))"

text \<open>Lines 105 to 108: the merged mapping is nested under \<^verbatim>\<open>name\<close> when one is given.\<close>

definition finalize :: "pyval \<Rightarrow> pydict \<Rightarrow> error + pydict" where
  "finalize name res =
     (if truthy name then
        (if hashable name then Inr [(name, PDict res)] else Inl (TypeError ''unhashable''))
      else Inr res)"

text \<open>
  The return value of \<^verbatim>\<open>_set_args\<close> is not used. Reading \<^verbatim>\<open>self.source_dir\<close> when
  \<^verbatim>\<open>_set_args\<close> has not assigned it raises \<^verbatim>\<open>AttributeError\<close>.
\<close>

definition run :: "host \<Rightarrow> task \<Rightarrow> error + pydict" where
  "run h t =
     (case set_args h t of
        Inl e \<Rightarrow> Inl e
      | Inr (ret, None) \<Rightarrow> Inl (AttributeError ''source_dir'')
      | Inr (ret, Some st) \<Rightarrow>
          (case resolve_source_dir t (source_dir st) of
             Inl e \<Rightarrow> Inl e
           | Inr sd \<Rightarrow>
               if fs_exists h sd then
                 (case traverse_dir_depth h sd (depth st) of
                    Inl e \<Rightarrow> Inl e
                  | Inr entries \<Rightarrow>
                      (case run_loop h t st entries [] (super_run h) True of
                         Inl e \<Rightarrow> Inl e
                       | Inr (res, result, sc) \<Rightarrow>
                           (case finalize (return_results_as_name st) res of
                              Inl e \<Rightarrow> Inl e
                            | Inr res' \<Rightarrow>
                                Inr (dict_set
                                       (dict_set result (PStr ''ansible_facts'') (PDict res'))
                                       (PStr ''_ansible_no_log'') (PBool sc)))))
               else
                 Inr (dict_set (dict_set (super_run h) (PStr ''failed'') (PBool True))
                        (PStr ''message'') (PStr (sd @ '' directory does not exist'')))))"

section \<open>Notions used in the statements\<close>

text \<open>What the generator yields for one triple of the walk.\<close>

definition yielded :: "string \<times> string list \<times> string list \<Rightarrow> string \<times> string list" where
  "yielded w = (fst w, sort (snd (snd w)))"

text \<open>Every key of the task's arguments is one of \<open>VALID_ARGUMENTS\<close>.\<close>

definition recognised_keys :: "task \<Rightarrow> bool" where
  "recognised_keys t = list_all (\<lambda>arg. arg \<in> set VALID_ARGUMENTS) (map fst (task_args t))"

fun str_or_list :: "pyval \<Rightarrow> bool" where
  "str_or_list (PStr s) = True"
| "str_or_list (PList xs) = True"
| "str_or_list v = False"

text \<open>
  The merge as the specification words it. A file name passes the filters when it is
  not the role's \<^verbatim>\<open>main.yml\<close>, matches the name pattern if one is configured, and
  exists under the directory; it is selected for loading when, in addition, no ignore
  pattern matches it. \<open>parsed\<close> is what the loader makes of a path (\<open>None\<close> when the
  loader raises), \<open>file_dict\<close> the mapping a file contributes (nothing for an empty
  file). \<open>merge_dir\<close> is the fragment of one directory, \<open>merge_dirs\<close> the fragments
  folded in traversal order, \<open>candidates\<close> the paths of the selected files in that
  order.
\<close>

definition passes_filters :: "host \<Rightarrow> task \<Rightarrow> settings \<Rightarrow> string \<Rightarrow> string \<Rightarrow> bool" where
  "passes_filters h t st root_dir filename =
     (\<not> (task_role t \<noteq> None \<and> filename = ''main.yml'')
      \<and> (case matcher st of None \<Rightarrow> True | Some p \<Rightarrow> re_search h p filename)
      \<and> fs_exists h (path_join root_dir filename))"

definition selected :: "host \<Rightarrow> task \<Rightarrow> settings \<Rightarrow> string \<Rightarrow> string \<Rightarrow> bool" where
  "selected h t st root_dir filename =
     (passes_filters h t st root_dir filename \<and> ignore_file h st filename = Inr False)"

definition parsed :: "host \<Rightarrow> string \<Rightarrow> pyval option" where
  "parsed h p =
     (case loader_get_file_contents h p of
        Inl e \<Rightarrow> None
      | Inr c \<Rightarrow> (case loader_load h (fst c) (snd c) of Inl e \<Rightarrow> None | Inr v \<Rightarrow> Some v))"

definition file_dict :: "host \<Rightarrow> string \<Rightarrow> pydict" where
  "file_dict h p = (case parsed h p of Some (PDict d) \<Rightarrow> d | _ \<Rightarrow> [])"

fun is_mapping :: "pyval option \<Rightarrow> bool" where
  "is_mapping (Some PNone) = True"
| "is_mapping (Some (PDict d)) = True"
| "is_mapping v = False"

definition merge_dir :: "host \<Rightarrow> task \<Rightarrow> settings \<Rightarrow> string \<Rightarrow> string list \<Rightarrow> pydict" where
  "merge_dir h t st root_dir files =
     fold (\<lambda>f acc. dict_update acc (file_dict h (path_join root_dir f)))
       (filter (selected h t st root_dir) files) []"

definition merge_dirs :: "host \<Rightarrow> task \<Rightarrow> settings \<Rightarrow> (string \<times> string list) list \<Rightarrow> pydict" where
  "merge_dirs h t st entries =
     fold (\<lambda>e acc. dict_update acc (merge_dir h t st (fst e) (snd e))) entries []"

definition candidates :: "host \<Rightarrow> task \<Rightarrow> settings \<Rightarrow> (string \<times> string list) list \<Rightarrow> string list" where
  "candidates h t st entries =
     concat (map (\<lambda>e. map (path_join (fst e)) (filter (selected h t st (fst e)) (snd e))) entries)"

text \<open>
  \<^verbatim>\<open>self.matcher\<close> is set exactly when \<^verbatim>\<open>self.files_matching\<close> is true, as
  \<^verbatim>\<open>_set_args\<close> leaves them.
\<close>

definition matcher_ok :: "settings \<Rightarrow> bool" where
  "matcher_ok st = (truthy (files_matching st) = (matcher st \<noteq> None))"

text \<open>
  A file that parses to nothing or to a dictionary; its keys are distinct, as those of
  every Python dictionary are.
\<close>

definition wf_mapping :: "host \<Rightarrow> string \<Rightarrow> bool" where
  "wf_mapping h p =
     (case parsed h p of
        Some PNone \<Rightarrow> True
      | Some (PDict d) \<Rightarrow> distinct (map fst d)
      | _ \<Rightarrow> False)"

section \<open>A concrete host for the examples\<close>

text \<open>
  A matcher for the part of \<^verbatim>\<open>re\<close> that the examples use: alternatives separated by
  \<^verbatim>\<open>|\<close>, each a sequence of literal characters, \<^verbatim>\<open>.\<close>, \<^verbatim>\<open>$\<close>, a backslash followed
  by a character that is neither a letter nor a digit (that character, literally), and
  any of these but \<^verbatim>\<open>$\<close> followed by \<^verbatim>\<open>*\<close>. As in \<^verbatim>\<open>re\<close>, a pattern does not
  compile when it ends in a backslash, or has a \<^verbatim>\<open>*\<close> with nothing to repeat or after
  another \<^verbatim>\<open>*\<close>. A pattern with any other special character is taken as one that
  does not compile; the examples use such a pattern only where \<^verbatim>\<open>re\<close> rejects it as
  well.
\<close>

datatype atom = Lit char | AnyChar | EndOfText

definition is_alnum :: "char \<Rightarrow> bool" where
  "is_alnum c = (c \<in> set ''abcdefghijklmnopqrstuvwxyzABCDEFGHIJKLMNOPQRSTUVWXYZ0123456789'')"

text \<open>
  The alternatives of a pattern, each a list of atoms with a flag for a following
  \<^verbatim>\<open>*\<close>; \<open>None\<close> when the pattern does not compile.
\<close>

fun parse :: "string \<Rightarrow> (atom \<times> bool) list \<Rightarrow> (atom \<times> bool) list list
                \<Rightarrow> (atom \<times> bool) list list option" where
  "parse [] cur alts = Some (alts @ [cur])"
| "parse (c # cs) cur alts =
     (if c = CHR ''|'' then parse cs [] (alts @ [cur])
      else if c = CHR ''*'' then
        (if cur = [] \<or> snd (last cur) \<or> fst (last cur) = EndOfText then None
         else parse cs (butlast cur @ [(fst (last cur), True)]) alts)
      else if c = CHR 0x5C then
        (case cs of
           [] \<Rightarrow> None
         | e # es \<Rightarrow> if is_alnum e then None else parse es (cur @ [(Lit e, False)]) alts)
      else if c \<in> set ''()[]{}+?^'' then None
      else if c = CHR ''.'' then parse cs (cur @ [(AnyChar, False)]) alts
      else if c = CHR ''$'' then parse cs (cur @ [(EndOfText, False)]) alts
      else parse cs (cur @ [(Lit c, False)]) alts)"

text \<open>
  \<^verbatim>\<open>.\<close> matches every character but a newline; \<^verbatim>\<open>$\<close> matches at the end of the text
  and before a newline that ends it.
\<close>

fun atom_ok :: "atom \<Rightarrow> char \<Rightarrow> bool" where
  "atom_ok (Lit c) x = (x = c)"
| "atom_ok AnyChar x = (x \<noteq> CHR 0x0A)"
| "atom_ok EndOfText x = False"

fun star_tails :: "atom \<Rightarrow> string \<Rightarrow> string list" where
  "star_tails a [] = [[]]"
| "star_tails a (x # xs) = (x # xs) # (if atom_ok a x then star_tails a xs else [])"

fun match_items :: "(atom \<times> bool) list \<Rightarrow> string \<Rightarrow> bool" where
  "match_items [] s = True"
| "match_items ((a, starred) # r) s =
     (if starred then list_ex (\<lambda>u. match_items r u) (star_tails a s)
      else if a = EndOfText then (s = [] \<or> s = [CHR 0x0A]) \<and> match_items r s
      else s \<noteq> [] \<and> atom_ok a (hd s) \<and> match_items r (tl s))"

fun tails_of :: "string \<Rightarrow> string list" where
  "tails_of [] = [[]]"
| "tails_of (x # xs) = (x # xs) # tails_of xs"

definition demo_valid :: "string \<Rightarrow> bool" where
  "demo_valid p = (parse p [] [] \<noteq> None)"

definition demo_search :: "string \<Rightarrow> string \<Rightarrow> bool" where
  "demo_search p s =
     (case parse p [] [] of
        None \<Rightarrow> False
      | Some alts \<Rightarrow> list_ex (\<lambda>alt. list_ex (match_items alt) (tails_of s)) alts)"

text \<open>
  Two directory trees, as \<^verbatim>\<open>os.walk\<close> lists them (top-down, unsorted), the files'
  contents with their safe-to-show flags, and what the parser makes of each content.
\<close>

definition demo_walk :: "string \<Rightarrow> (string \<times> string list \<times> string list) list" where
  "demo_walk d =
     (if d = ''conf'' then
        [(''conf'', [''sub'', ''extra''], [''b.yml'', ''a.yml'', ''README.md'', ''empty.yml'']),
         (''conf/sub'', [], [''main.yml'', ''c.yml'']),
         (''conf/extra'', [], [''secret.yml''])]
      else if d = ''bad'' then
        [(''bad'', [''z''], [''ok.yml'']),
         (''bad/z'', [], [''more.yml'', ''list.yml''])]
      else [])"

definition demo_files :: "(string \<times> string \<times> bool) list" where
  "demo_files =
     [(''conf/a.yml'', ''{x: 1, y: 1}'', True),
      (''conf/b.yml'', ''{y: 2}'', True),
      (''conf/README.md'', ''# notes'', True),
      (''conf/empty.yml'', [], True),
      (''conf/sub/main.yml'', ''{m: 0}'', True),
      (''conf/sub/c.yml'', ''{x: 3}'', True),
      (''conf/extra/secret.yml'', ''{token: 7}'', False),
      (''bad/ok.yml'', ''{k: 1}'', True),
      (''bad/z/list.yml'', ''[1, 2]'', True),
      (''bad/z/more.yml'', ''{n: 1}'', True)]"

definition demo_parse :: "(string \<times> pyval) list" where
  "demo_parse =
     [(''{x: 1, y: 1}'', PDict [(PStr ''x'', PInt 1), (PStr ''y'', PInt 1)]),
      (''{y: 2}'', PDict [(PStr ''y'', PInt 2)]),
      (''# notes'', PNone),
      ([], PNone),
      (''{m: 0}'', PDict [(PStr ''m'', PInt 0)]),
      (''{x: 3}'', PDict [(PStr ''x'', PInt 3)]),
      (''{token: 7}'', PDict [(PStr ''token'', PInt 7)]),
      (''{k: 1}'', PDict [(PStr ''k'', PInt 1)]),
      (''[1, 2]'', PList [PInt 1, PInt 2]),
      (''{n: 1}'', PDict [(PStr ''n'', PInt 1)])]"

definition demo_str :: "pyval \<Rightarrow> string" where
  "demo_str v =
     (if v = PNone then ''None''
      else if v = PDict [(PStr ''a.yml'', PInt 1)]
        then ''{'' @ [CHR 0x27] @ ''a.yml'' @ [CHR 0x27] @ '': 1}''
      else ''<object>'')"

definition demo_host :: host where
  "demo_host =
     \<lparr> str_of = demo_str,
       re_valid = demo_valid,
       re_search = demo_search,
       fs_exists = (\<lambda>p. p \<in> set (map fst (demo_walk ''conf'') @ map fst (demo_walk ''bad'')
                                   @ map fst demo_files)),
       fs_walk = demo_walk,
       loader_get_file_contents =
         (\<lambda>p. case map_of demo_files p of
                 None \<Rightarrow> Inl (LoaderError p)
               | Some c \<Rightarrow> Inr c),
       loader_load =
         (\<lambda>raw show. case map_of demo_parse raw of
                 None \<Rightarrow> Inl (LoaderError raw)
               | Some v \<Rightarrow> Inr v),
       super_run = [] \<rparr>"

definition demo_task :: "pydict \<Rightarrow> task" where
  "demo_task a = \<lparr> task_args = a, task_ds = PStr ''include_vars_dir'', task_role = None \<rparr>"

text \<open>
  The settings that \<^verbatim>\<open>_set_args\<close> assigns for the arguments \<^verbatim>\<open>{dir: d}\<close>, and what
  the walker yields for \<^verbatim>\<open>conf\<close> without a depth limit.
\<close>

definition demo_settings :: "string \<Rightarrow> settings" where
  "demo_settings d =
     \<lparr> return_results_as_name = PNone, source_dir = PStr d, depth = PInt 0,
       files_matching = PNone, matcher = None, ignore_files = PList IGNORE_FILES \<rparr>"

definition demo_conf_entries :: "(string \<times> string list) list" where
  "demo_conf_entries =
     [(''conf'', [''README.md'', ''a.yml'', ''b.yml'', ''empty.yml'']),
      (''conf/extra'', [''secret.yml'']),
      (''conf/sub'', [''c.yml'', ''main.yml''])]"

text \<open>The definitions that the concrete examples unfold.\<close>

lemmas demo_eval =
  demo_host_def demo_task_def demo_walk_def demo_files_def demo_parse_def demo_str_def
  demo_valid_def demo_search_def is_alnum_def
  run_def set_args_def set_args_finish_def resolve_source_dir_def traverse_dir_depth_def
  load_files_def load_one_def ignore_file_def stop_iter_of_def finalize_def
  dict_get_def dict_set_def dict_update_def fmt_def path_join_def py_split_def is_space_def
  VALID_ARGUMENTS_def IGNORE_FILES_def failed_result_def

lemmas demo_spec =
  demo_settings_def demo_conf_entries_def selected_def passes_filters_def candidates_def
  parsed_def file_dict_def wf_mapping_def merge_dirs_def merge_dir_def

section \<open>Properties\<close>

subsection \<open>The directory walker\<close>

lemma traverse_loop_limit:
  "d \<noteq> 0 \<Longrightarrow> traverse_loop (PInt d) c ws = Inr (map yielded (take (nat (d - c)) ws))"
proof (induction ws arbitrary: c)
  case Nil
  then show ?case by simp
next
  case (Cons w ws)
  obtain r ds fs where w: "w = (r, ds, fs)" by (cases w)
  show ?case
  proof (cases "c + 1 \<le> d")
    case True
    then have "nat (d - c) = Suc (nat (d - (c + 1)))" by simp
    with True Cons w show ?thesis by (simp add: yielded_def)
  next
    case False
    then have "nat (d - c) = 0" by simp
    with False Cons.prems w show ?thesis by simp
  qed
qed

lemma traverse_loop_unlimited:
  "traverse_loop (PInt 0) c ws = Inr (map yielded ws)"
proof (induction ws arbitrary: c)
  case Nil
  then show ?case by simp
next
  case (Cons w ws)
  obtain r ds fs where w: "w = (r, ds, fs)" by (cases w)
  with Cons show ?case by (simp add: yielded_def)
qed

text \<open>
  Claim C4. With a depth limit \<open>d \<ge> 1\<close> the walker yields the first \<open>min d n\<close> of the
  \<open>n\<close> directories of the walk sorted by path, each with its file names sorted, and
  nothing after them; with the limit \<open>0\<close> it yields all \<open>n\<close>.
\<close>

theorem walker_yields_sorted_prefix:
  "(1 \<le> d \<longrightarrow>
      traverse_dir_depth h sd (PInt d)
        = Inr (map yielded (take (nat d) (sort_key fst (fs_walk h sd))))
      \<and> length (take (nat d) (sort_key fst (fs_walk h sd))) = min (nat d) (length (fs_walk h sd)))
   \<and> traverse_dir_depth h sd (PInt 0) = Inr (map yielded (sort_key fst (fs_walk h sd)))
   \<and> sorted (map fst (sort_key fst (fs_walk h sd)))"
proof -
  have "traverse_dir_depth h sd (PInt d)
          = Inr (map yielded (take (nat d) (sort_key fst (fs_walk h sd))))" if "1 \<le> d"
    using that traverse_loop_limit [of d 0] by (simp add: traverse_dir_depth_def)
  moreover have "traverse_dir_depth h sd (PInt 0) = Inr (map yielded (sort_key fst (fs_walk h sd)))"
    by (simp add: traverse_dir_depth_def traverse_loop_unlimited)
  ultimately show ?thesis by (simp add: min.commute)
qed

theorem walker_yields_sorted_prefix_witness:
  "(1::int) \<le> 2
   \<and> traverse_dir_depth demo_host ''conf'' (PInt 2)
       = Inr [(''conf'', [''README.md'', ''a.yml'', ''b.yml'', ''empty.yml'']),
              (''conf/extra'', [''secret.yml''])]
   \<and> traverse_dir_depth demo_host ''conf'' (PInt 0)
       = Inr [(''conf'', [''README.md'', ''a.yml'', ''b.yml'', ''empty.yml'']),
              (''conf/extra'', [''secret.yml'']),
              (''conf/sub'', [''c.yml'', ''main.yml''])]"
proof -
  have w: "sort_key fst (fs_walk demo_host ''conf'')
             = [(''conf'', [''sub'', ''extra''], [''b.yml'', ''a.yml'', ''README.md'', ''empty.yml'']),
                (''conf/extra'', [], [''secret.yml'']),
                (''conf/sub'', [], [''main.yml'', ''c.yml''])]"
    by (simp add: demo_host_def demo_walk_def)
  have "(1::int) \<le> 2" by simp
  with walker_yields_sorted_prefix [of 2 demo_host "''conf''"] show ?thesis
    by (simp add: w yielded_def)
qed

lemma traverse_loop_negative:
  "d < 0 \<Longrightarrow> 0 \<le> c \<Longrightarrow> traverse_loop (PInt d) c ws = Inr []"
  by (cases ws) auto

text \<open>
  Claim C10, as amended. With a negative depth the walker yields no directory: the
  counter is \<open>1\<close> at the first directory, which exceeds the limit, and the loop is left.
  An invocation whose argument resolution returns with the settings assigned and that
  depth, whose directory exists and whose \<^verbatim>\<open>name\<close> can be a dictionary key returns
  without an exception; its result adds to the host's dictionary the empty merged
  mapping (nested under \<^verbatim>\<open>name\<close> when one is given) and the flag, and nothing else.
\<close>

theorem negative_depth_yields_nothing:
  assumes "d < 0"
  shows "traverse_dir_depth h sd (PInt d) = Inr []
       \<and> (\<forall>t ret st.
            set_args h t = Inr (ret, Some st) \<and> depth st = PInt d
            \<and> resolve_source_dir t (source_dir st) = Inr sd \<and> fs_exists h sd
            \<and> hashable (return_results_as_name st)
            \<longrightarrow> run h t =
                  Inr (dict_set
                         (dict_set (super_run h) (PStr ''ansible_facts'')
                            (PDict (if truthy (return_results_as_name st)
                                    then [(return_results_as_name st, PDict [])] else [])))
                         (PStr ''_ansible_no_log'') (PBool True)))"
proof -
  have tr: "traverse_dir_depth h sd (PInt d) = Inr []"
    using assms by (simp add: traverse_dir_depth_def traverse_loop_negative)
  have "run h t =
          Inr (dict_set
                 (dict_set (super_run h) (PStr ''ansible_facts'')
                    (PDict (if truthy (return_results_as_name st)
                            then [(return_results_as_name st, PDict [])] else [])))
                 (PStr ''_ansible_no_log'') (PBool True))"
    if "set_args h t = Inr (ret, Some st)" "depth st = PInt d"
       "resolve_source_dir t (source_dir st) = Inr sd" "fs_exists h sd"
       "hashable (return_results_as_name st)" for t ret st
    using that tr by (simp add: run_def finalize_def)
  then show ?thesis using tr by blast
qed

lemma demo_set_args_negative:
  "set_args demo_host
     (demo_task [(PStr ''dir'', PStr ''conf''), (PStr ''depth'', PInt (- 1)), (PStr ''name'', PStr ''v'')])
   = Inr (None,
          Some \<lparr> return_results_as_name = PStr ''v'', source_dir = PStr ''conf'',
                 depth = PInt (- 1), files_matching = PNone, matcher = None,
                 ignore_files = PList IGNORE_FILES \<rparr>)"
  by (simp add: set_args_def set_args_finish_def demo_task_def VALID_ARGUMENTS_def dict_get_def)

theorem negative_depth_yields_nothing_witness:
  "(- 1 :: int) < 0
   \<and> traverse_dir_depth demo_host ''conf'' (PInt (- 1)) = Inr []
   \<and> run demo_host
       (demo_task [(PStr ''dir'', PStr ''conf''), (PStr ''depth'', PInt (- 1)), (PStr ''name'', PStr ''v'')])
     = Inr [(PStr ''ansible_facts'', PDict [(PStr ''v'', PDict [])]),
            (PStr ''_ansible_no_log'', PBool True)]"
proof -
  have neg: "(- 1 :: int) < 0" by simp
  note th = negative_depth_yields_nothing [OF neg, of demo_host "''conf''"]
  have ex: "fs_exists demo_host ''conf''"
    by (simp add: demo_host_def demo_walk_def)
  have rs: "resolve_source_dir
              (demo_task [(PStr ''dir'', PStr ''conf''), (PStr ''depth'', PInt (- 1)), (PStr ''name'', PStr ''v'')])
              (PStr ''conf'') = Inr ''conf''"
    by (simp add: resolve_source_dir_def demo_task_def)
  from th have "run demo_host
       (demo_task [(PStr ''dir'', PStr ''conf''), (PStr ''depth'', PInt (- 1)), (PStr ''name'', PStr ''v'')])
     = Inr (dict_set (dict_set (super_run demo_host) (PStr ''ansible_facts'')
                 (PDict [(PStr ''v'', PDict [])])) (PStr ''_ansible_no_log'') (PBool True))"
    using demo_set_args_negative ex rs by fastforce
  then show ?thesis using th by (simp add: dict_set_def demo_host_def)
qed

text \<open>
  The claim as stated fails at the arguments \<^verbatim>\<open>{dir: conf, depth: -1, name: [a]}\<close> on
  the existing directory \<^verbatim>\<open>conf\<close>: nothing is yielded, and nesting the empty mapping
  under a list (line 107) raises \<^verbatim>\<open>TypeError\<close>.
\<close>

theorem negative_depth_counterexample:
  "run demo_host
     (demo_task [(PStr ''dir'', PStr ''conf''), (PStr ''depth'', PInt (- 1)),
                 (PStr ''name'', PList [PStr ''a''])])
   = Inl (TypeError ''unhashable'')"
  by (simp add: demo_eval)

subsection \<open>Argument resolution\<close>

lemma recognised_keys_find:
  "recognised_keys t \<Longrightarrow> find (\<lambda>arg. arg \<notin> set VALID_ARGUMENTS) (map fst (task_args t)) = None"
  by (simp add: recognised_keys_def find_None_iff list_all_iff)

text \<open>
  Claim C5, at the arguments \<^verbatim>\<open>{dir: conf, foo: 1}\<close>. \<^verbatim>\<open>_set_args\<close> builds the
  failure dictionary for the unrecognised key and returns it, having assigned no
  attribute; \<^verbatim>\<open>run\<close> drops that return value and goes on, and fails on reading
  \<^verbatim>\<open>self.source_dir\<close>. No failure about the argument reaches the caller.
\<close>

theorem unrecognised_argument_discarded:
  "set_args demo_host (demo_task [(PStr ''dir'', PStr ''conf''), (PStr ''foo'', PInt 1)])
     = Inr (Some [(PStr ''failed'', PBool True),
                  (PStr ''message'', PStr ''foo is not a valid option in debug'')], None)
   \<and> run demo_host (demo_task [(PStr ''dir'', PStr ''conf''), (PStr ''foo'', PInt 1)])
     = Inl (AttributeError ''source_dir'')"
  by (simp add: demo_eval)

text \<open>
  Claim C8, at the arguments \<^verbatim>\<open>{dir: conf, ignore_files: {a.yml: 1}}\<close>. The failure
  dictionary that \<^verbatim>\<open>_set_args\<close> returns for the mapping is dropped by \<^verbatim>\<open>run\<close>: the
  invocation succeeds, with the mapping's keys as the ignore patterns (\<^verbatim>\<open>a.yml\<close> is
  skipped) and without the default patterns. A string is split at whitespace and a list
  is taken as it is, each with the default patterns appended.
\<close>

theorem mapping_ignore_files_not_rejected:
  "set_args demo_host
     (demo_task [(PStr ''dir'', PStr ''conf''),
                 (PStr ''ignore_files'', PDict [(PStr ''a.yml'', PInt 1)])])
   = Inr (Some [(PStr ''failed'', PBool True),
                (PStr ''message'',
                 PStr (demo_str (PDict [(PStr ''a.yml'', PInt 1)]) @ '' must be a list''))],
          Some ((demo_settings ''conf'')\<lparr>ignore_files := PDict [(PStr ''a.yml'', PInt 1)]\<rparr>))
   \<and> run demo_host
       (demo_task [(PStr ''dir'', PStr ''conf''),
                   (PStr ''ignore_files'', PDict [(PStr ''a.yml'', PInt 1)])])
     = Inr [(PStr ''ansible_facts'',
             PDict [(PStr ''y'', PInt 2), (PStr ''token'', PInt 7),
                    (PStr ''x'', PInt 3), (PStr ''m'', PInt 0)]),
            (PStr ''_ansible_no_log'', PBool False)]
   \<and> set_args demo_host
       (demo_task [(PStr ''dir'', PStr ''conf''),
                   (PStr ''ignore_files'', PStr '' secret.yml  b.yml '')])
     = Inr (None,
            Some ((demo_settings ''conf'')
                    \<lparr>ignore_files := PList [PStr ''secret.yml'', PStr ''b.yml'', PStr ''.*.md'',
                                             PStr ''.*.py'', PStr ''.*.pyc'']\<rparr>))
   \<and> set_args demo_host
       (demo_task [(PStr ''dir'', PStr ''conf''),
                   (PStr ''ignore_files'', PList [PStr ''secret.yml''])])
     = Inr (None,
            Some ((demo_settings ''conf'')
                    \<lparr>ignore_files := PList [PStr ''secret.yml'', PStr ''.*.md'',
                                             PStr ''.*.py'', PStr ''.*.pyc'']\<rparr>))"
  by (simp add: demo_eval demo_settings_def)

text \<open>
  Claim C9, as amended. When every key is recognised, \<^verbatim>\<open>files_matching\<close> is false or
  compiles, \<^verbatim>\<open>ignore_files\<close> is absent, a string or a list, and \<^verbatim>\<open>dir\<close> is absent or
  false, \<^verbatim>\<open>_set_args\<close> raises \<open>AnsibleError\<close> with the fixed text followed by the raw
  task definition, and so does \<^verbatim>\<open>run\<close>, whatever the file system and the loader are.
\<close>

theorem missing_dir_raises:
  assumes "recognised_keys t"
      and "\<not> truthy (dict_get (task_args t) (PStr ''dir'') PNone)"
      and "\<not> truthy (dict_get (task_args t) (PStr ''files_matching'') PNone)
           \<or> re_valid h (fmt h (dict_get (task_args t) (PStr ''files_matching'') PNone))"
      and "str_or_list (dict_get (task_args t) (PStr ''ignore_files'') (PList []))"
  shows "set_args h t = Inl (AnsibleError (missing_dir_prefix @ fmt h (task_ds t)))
       \<and> (\<forall>e w g l.
            run (h\<lparr>fs_exists := e, fs_walk := w,
                    loader_get_file_contents := g, loader_load := l\<rparr>) t
              = Inl (AnsibleError (missing_dir_prefix @ fmt h (task_ds t))))"
proof -
  have sa: "set_args h' t = Inl (AnsibleError (missing_dir_prefix @ fmt h' (task_ds t)))"
    if "re_valid h' = re_valid h" "str_of h' = str_of h" for h'
  proof -
    have f: "fmt h' = fmt h" using that by (auto simp: fmt_def fun_eq_iff split: pyval.splits)
    show ?thesis
      using assms(2-4) recognised_keys_find [OF assms(1)] that(1)
      by (cases "dict_get (task_args t) (PStr ''ignore_files'') (PList [])")
         (auto simp: set_args_def set_args_finish_def f Let_def)
  qed
  have "set_args h t = Inl (AnsibleError (missing_dir_prefix @ fmt h (task_ds t)))"
    using sa [of h] by simp
  moreover have "run (h\<lparr>fs_exists := e, fs_walk := w,
                    loader_get_file_contents := g, loader_load := l\<rparr>) t
              = Inl (AnsibleError (missing_dir_prefix @ fmt h (task_ds t)))" for e w g l
    using sa [of "h\<lparr>fs_exists := e, fs_walk := w, loader_get_file_contents := g, loader_load := l\<rparr>"]
    by (simp add: run_def fmt_def cong: pyval.case_cong)
  ultimately show ?thesis by blast
qed

theorem missing_dir_raises_witness:
  "recognised_keys (demo_task [(PStr ''depth'', PInt 2), (PStr ''dir'', PStr [])])
   \<and> set_args demo_host (demo_task [(PStr ''depth'', PInt 2), (PStr ''dir'', PStr [])])
       = Inl (AnsibleError (missing_dir_prefix @ ''include_vars_dir''))
   \<and> run demo_host (demo_task [(PStr ''depth'', PInt 2), (PStr ''dir'', PStr [])])
       = Inl (AnsibleError (missing_dir_prefix @ ''include_vars_dir''))"
proof -
  let ?t = "demo_task [(PStr ''depth'', PInt 2), (PStr ''dir'', PStr [])]"
  have a: "recognised_keys ?t"
    by (simp add: recognised_keys_def demo_task_def VALID_ARGUMENTS_def)
  have b: "\<not> truthy (dict_get (task_args ?t) (PStr ''dir'') PNone)"
    by (simp add: demo_task_def dict_get_def)
  have c: "\<not> truthy (dict_get (task_args ?t) (PStr ''files_matching'') PNone)
           \<or> re_valid demo_host (fmt demo_host (dict_get (task_args ?t) (PStr ''files_matching'') PNone))"
    by (simp add: demo_task_def dict_get_def)
  have d: "str_or_list (dict_get (task_args ?t) (PStr ''ignore_files'') (PList []))"
    by (simp add: demo_task_def dict_get_def)
  have h: "demo_host\<lparr>fs_exists := fs_exists demo_host, fs_walk := fs_walk demo_host,
             loader_get_file_contents := loader_get_file_contents demo_host,
             loader_load := loader_load demo_host\<rparr> = demo_host"
    by simp
  have f: "fmt demo_host (task_ds ?t) = ''include_vars_dir''"
    by (simp add: fmt_def demo_task_def)
  from missing_dir_raises [OF a b c d] f h show ?thesis
    using a by metis
qed

text \<open>
  The claim as stated fails at the arguments \<^verbatim>\<open>{foo: 1}\<close>, which lack \<^verbatim>\<open>dir\<close>: the
  check of the keys comes first, and \<^verbatim>\<open>_set_args\<close> returns its failure dictionary
  without raising.
\<close>

theorem missing_dir_counterexample:
  "set_args demo_host (demo_task [(PStr ''foo'', PInt 1)])
     = Inr (Some [(PStr ''failed'', PBool True),
                  (PStr ''message'', PStr ''foo is not a valid option in debug'')], None)"
  by (simp add: demo_eval)

text \<open>
  Claim C6, as amended. When every key is recognised and \<^verbatim>\<open>files_matching\<close> is a true
  value that does not compile, \<^verbatim>\<open>re.compile\<close> raises inside \<^verbatim>\<open>_set_args\<close>: the
  invocation ends with that exception during argument resolution, before any file name
  is matched.
\<close>

theorem invalid_files_matching_raises_at_resolution:
  assumes "recognised_keys t"
      and "truthy (dict_get (task_args t) (PStr ''files_matching'') PNone)"
      and "\<not> re_valid h (fmt h (dict_get (task_args t) (PStr ''files_matching'') PNone))"
  shows "set_args h t = Inl (ReError (fmt h (dict_get (task_args t) (PStr ''files_matching'') PNone)))
       \<and> run h t = Inl (ReError (fmt h (dict_get (task_args t) (PStr ''files_matching'') PNone)))"
  using assms(2,3) recognised_keys_find [OF assms(1)]
  by (simp add: set_args_def run_def)

theorem invalid_files_matching_raises_at_resolution_witness:
  "recognised_keys (demo_task [(PStr ''dir'', PStr ''conf''), (PStr ''files_matching'', PStr ''*.yml'')])
   \<and> \<not> re_valid demo_host ''*.yml''
   \<and> set_args demo_host (demo_task [(PStr ''dir'', PStr ''conf''), (PStr ''files_matching'', PStr ''*.yml'')])
       = Inl (ReError ''*.yml'')
   \<and> run demo_host (demo_task [(PStr ''dir'', PStr ''conf''), (PStr ''files_matching'', PStr ''*.yml'')])
       = Inl (ReError ''*.yml'')"
proof -
  let ?t = "demo_task [(PStr ''dir'', PStr ''conf''), (PStr ''files_matching'', PStr ''*.yml'')]"
  have fm: "dict_get (task_args ?t) (PStr ''files_matching'') PNone = PStr ''*.yml''"
    by (simp add: demo_task_def dict_get_def)
  have a: "recognised_keys ?t"
    by (simp add: recognised_keys_def demo_task_def VALID_ARGUMENTS_def)
  have b: "truthy (dict_get (task_args ?t) (PStr ''files_matching'') PNone)"
    by (simp add: fm)
  have c: "\<not> re_valid demo_host (fmt demo_host (dict_get (task_args ?t) (PStr ''files_matching'') PNone))"
    by (simp add: fm fmt_def demo_host_def demo_valid_def)
  from invalid_files_matching_raises_at_resolution [OF a b c] a c show ?thesis
    by (simp add: fm fmt_def)
qed

text \<open>
  The claim as stated fails at \<^verbatim>\<open>{dir: conf, files_matching: "("}\<close>: the pattern does
  not compile, and argument resolution raises.
\<close>

theorem invalid_files_matching_counterexample:
  "set_args demo_host (demo_task [(PStr ''dir'', PStr ''conf''), (PStr ''files_matching'', PStr ''('')])
     = Inl (ReError ''('')"
  by (simp add: demo_eval)

subsection \<open>Loading the files of a directory\<close>

lemma set_args_matcher_ok:
  "set_args h t = Inr (ret, Some st) \<Longrightarrow> matcher_ok st"
  by (auto simp: set_args_def set_args_finish_def matcher_ok_def Let_def
           split: option.splits if_splits pyval.splits)

lemma load_loop_failed:
  "failed s \<Longrightarrow> matcher_ok st \<Longrightarrow> load_loop h t st root_dir files s = Inr s"
  by (induction files) (auto simp: matcher_ok_def stop_iter_of_def split: option.splits)

lemma load_loop_step:
  assumes "\<not> failed s" "matcher_ok st"
  shows "load_loop h t st root_dir (f # rest) s =
     (if passes_filters h t st root_dir f then
        (case ignore_file h st f of
           Inl e \<Rightarrow> Inl e
         | Inr True \<Rightarrow> load_loop h t st root_dir rest s
         | Inr False \<Rightarrow>
             (case load_one h (path_join root_dir f) s of
                Inl e \<Rightarrow> Inl e
              | Inr s' \<Rightarrow> load_loop h t st root_dir rest s'))
      else load_loop h t st root_dir rest s)"
  using assms
  by (auto simp: passes_filters_def matcher_ok_def stop_iter_of_def
           split: option.splits sum.splits bool.splits)

lemma load_one_mapping:
  assumes "load_one h p s = Inr s'" "is_mapping (parsed h p)"
  shows "results s' = dict_update (results s) (file_dict h p) \<and> failed s' = failed s
         \<and> err_msg s' = err_msg s"
  using assms
  by (auto simp: load_one_def parsed_def file_dict_def dict_update_def Let_def
           split: sum.splits prod.splits pyval.splits if_splits)

lemma load_one_not_mapping:
  assumes "load_one h p s = Inr s'" "parsed h p = Some v" "\<not> is_mapping (Some v)"
  shows "results s' = results s \<and> failed s'
         \<and> err_msg s' = p @ '' must be stored as a dictionary/hash''"
  using assms
  by (auto simp: load_one_def parsed_def Let_def
           split: sum.splits prod.splits pyval.splits if_splits)

lemma load_loop_mappings:
  assumes "matcher_ok st" "\<not> failed s" "load_loop h t st root_dir files s = Inr s'"
      and "list_all (\<lambda>f. is_mapping (parsed h (path_join root_dir f)))
             (filter (selected h t st root_dir) files)"
  shows "\<not> failed s'
       \<and> results s' = fold (\<lambda>f acc. dict_update acc (file_dict h (path_join root_dir f)))
                        (filter (selected h t st root_dir) files) (results s)"
  using assms(2-4)
proof (induction files arbitrary: s)
  case Nil
  then show ?case by simp
next
  case (Cons f files)
  note step = load_loop_step [OF Cons.prems(1) assms(1), of h t root_dir f files]
  show ?case
  proof (cases "passes_filters h t st root_dir f")
    case False
    then have "\<not> selected h t st root_dir f" by (simp add: selected_def)
    with False Cons step show ?thesis by simp
  next
    case True
    show ?thesis
    proof (cases "ignore_file h st f")
      case (Inl e)
      with True step Cons.prems(2) show ?thesis by simp
    next
      case (Inr b)
      show ?thesis
      proof (cases b)
        case True
        with Inr have "\<not> selected h t st root_dir f" by (simp add: selected_def)
        with True Inr \<open>passes_filters h t st root_dir f\<close> Cons step show ?thesis by simp
      next
        case False
        with Inr \<open>passes_filters h t st root_dir f\<close> have sel: "selected h t st root_dir f"
          by (simp add: selected_def)
        with Cons.prems(3) have m: "is_mapping (parsed h (path_join root_dir f))" by simp
        from step False Inr \<open>passes_filters h t st root_dir f\<close> Cons.prems(2)
        obtain s1 where s1: "load_one h (path_join root_dir f) s = Inr s1"
          and rest: "load_loop h t st root_dir files s1 = Inr s'"
          by (auto split: sum.splits)
        from load_one_mapping [OF s1 m] Cons.prems(1)
        have f1: "\<not> failed s1"
          and r1: "results s1 = dict_update (results s) (file_dict h (path_join root_dir f))"
          by simp_all
        from Cons.IH [OF f1 rest] Cons.prems(3) sel r1 show ?thesis by simp
      qed
    qed
  qed
qed

lemma load_loop_first_bad:
  assumes "matcher_ok st" "\<not> failed s"
      and "load_loop h t st root_dir (before @ f # after) s = Inr s'"
      and "list_all (\<lambda>f. is_mapping (parsed h (path_join root_dir f)))
             (filter (selected h t st root_dir) before)"
      and "selected h t st root_dir f"
      and "parsed h (path_join root_dir f) = Some v" "\<not> is_mapping (Some v)"
  shows "failed s' \<and> err_msg s' = path_join root_dir f @ '' must be stored as a dictionary/hash''"
  using assms(2-4)
proof (induction before arbitrary: s)
  case Nil
  note step = load_loop_step [OF Nil.prems(1) assms(1), of h t root_dir f after]
  from assms(5) have pf: "passes_filters h t st root_dir f" and ig: "ignore_file h st f = Inr False"
    by (simp_all add: selected_def)
  from step pf ig Nil.prems(2)
  obtain s1 where s1: "load_one h (path_join root_dir f) s = Inr s1"
    and rest: "load_loop h t st root_dir after s1 = Inr s'"
    by (auto split: sum.splits)
  from load_one_not_mapping [OF s1 assms(6,7)]
  have f1: "failed s1" and e1: "err_msg s1 = path_join root_dir f @ '' must be stored as a dictionary/hash''"
    by simp_all
  from load_loop_failed [OF f1 assms(1), of h t root_dir after] rest have "s' = s1" by simp
  with f1 e1 show ?case by simp
next
  case (Cons g before)
  note step = load_loop_step [OF Cons.prems(1) assms(1), of h t root_dir g "before @ f # after"]
  show ?case
  proof (cases "selected h t st root_dir g")
    case True
    then have pf: "passes_filters h t st root_dir g" and ig: "ignore_file h st g = Inr False"
      by (simp_all add: selected_def)
    from True Cons.prems(3) have m: "is_mapping (parsed h (path_join root_dir g))" by simp
    from step pf ig Cons.prems(2)
    obtain s1 where s1: "load_one h (path_join root_dir g) s = Inr s1"
      and rest: "load_loop h t st root_dir (before @ f # after) s1 = Inr s'"
      by (auto split: sum.splits)
    from load_one_mapping [OF s1 m] Cons.prems(1) have f1: "\<not> failed s1" by simp
    from Cons.IH [OF f1 rest] Cons.prems(3) True show ?thesis by simp
  next
    case False
    have rest: "load_loop h t st root_dir (before @ f # after) s = Inr s'"
    proof (cases "passes_filters h t st root_dir g")
      case True
      with False have "ignore_file h st g \<noteq> Inr False" by (simp add: selected_def)
      with step True Cons.prems(2) show ?thesis
        by (auto split: sum.splits bool.splits)
    next
      case False
      with step Cons.prems(2) show ?thesis by simp
    qed
    from Cons.IH [OF Cons.prems(1) rest] Cons.prems(3) False show ?thesis by simp
  qed
qed





subsection \<open>The merged mapping\<close>

lemma load_files_mappings:
  assumes "matcher_ok st" "load_files h t st root_dir files sc = Inr s'"
      and "list_all (\<lambda>f. is_mapping (parsed h (path_join root_dir f)))
             (filter (selected h t st root_dir) files)"
  shows "\<not> failed s' \<and> results s' = merge_dir h t st root_dir files"
  using load_loop_mappings [OF assms(1) _ assms(2) [unfolded load_files_def] assms(3)]
  by (simp add: merge_dir_def)

lemma load_files_first_bad:
  assumes "matcher_ok st" "load_files h t st root_dir (before @ f # after) sc = Inr s'"
      and "list_all (\<lambda>f. is_mapping (parsed h (path_join root_dir f)))
             (filter (selected h t st root_dir) before)"
      and "selected h t st root_dir f"
      and "parsed h (path_join root_dir f) = Some v" "\<not> is_mapping (Some v)"
  shows "failed s' \<and> err_msg s' = path_join root_dir f @ '' must be stored as a dictionary/hash''"
  using load_loop_first_bad [OF assms(1) _ assms(2) [unfolded load_files_def] assms(3-6)]
  by simp

lemma candidates_Cons:
  "candidates h t st (e # entries) =
     map (path_join (fst e)) (filter (selected h t st (fst e)) (snd e)) @ candidates h t st entries"
  by (simp add: candidates_def)

lemma run_loop_mappings:
  assumes "matcher_ok st"
      and "run_loop h t st entries res result sc = Inr (res', result', sc')"
      and "list_all (\<lambda>p. is_mapping (parsed h p)) (candidates h t st entries)"
  shows "res' = fold (\<lambda>e acc. dict_update acc (merge_dir h t st (fst e) (snd e))) entries res
       \<and> result' = result"
  using assms(2,3)
proof (induction entries arbitrary: res sc)
  case Nil
  then show ?case by simp
next
  case (Cons e entries)
  obtain root_dir files where e: "e = (root_dir, files)" by (cases e)
  from Cons.prems(2) have m: "list_all (\<lambda>f. is_mapping (parsed h (path_join root_dir f)))
             (filter (selected h t st root_dir) files)"
    and rest: "list_all (\<lambda>p. is_mapping (parsed h p)) (candidates h t st entries)"
    by (simp_all add: candidates_Cons e list_all_iff)
  from Cons.prems(1) obtain s where s: "load_files h t st root_dir files sc = Inr s"
    by (auto simp: e split: sum.splits)
  from load_files_mappings [OF assms(1) s m]
  have nf: "\<not> failed s" and r: "results s = merge_dir h t st root_dir files" by simp_all
  from Cons.prems(1) s nf
  have "run_loop h t st entries (dict_update res (results s)) result (show_content s)
          = Inr (res', result', sc')"
    by (simp add: e)
  from Cons.IH [OF this rest] r show ?case by (simp add: e)
qed

lemma run_loop_first_bad:
  assumes "matcher_ok st"
      and "run_loop h t st (pre @ (root_dir, before @ f # after) # post) res result sc
             = Inr (res', result', sc')"
      and "list_all (\<lambda>p. is_mapping (parsed h p)) (candidates h t st (pre @ [(root_dir, before)]))"
      and "selected h t st root_dir f"
      and "parsed h (path_join root_dir f) = Some v" "\<not> is_mapping (Some v)"
  shows "res' = fold (\<lambda>e acc. dict_update acc (merge_dir h t st (fst e) (snd e))) pre res
       \<and> result' = dict_set (dict_set result (PStr ''failed'') (PBool True)) (PStr ''message'')
                     (PStr (path_join root_dir f @ '' must be stored as a dictionary/hash''))"
  using assms(2,3)
proof (induction pre arbitrary: res sc)
  case Nil
  from Nil.prems(2) have m: "list_all (\<lambda>f. is_mapping (parsed h (path_join root_dir f)))
             (filter (selected h t st root_dir) before)"
    by (simp add: candidates_def list_all_iff)
  from Nil.prems(1) obtain s where s: "load_files h t st root_dir (before @ f # after) sc = Inr s"
    by (auto split: sum.splits)
  from load_files_first_bad [OF assms(1) s m assms(4-6)]
  have "failed s" "err_msg s = path_join root_dir f @ '' must be stored as a dictionary/hash''"
    by simp_all
  with Nil.prems(1) s show ?case by auto
next
  case (Cons e pre)
  obtain rd files where e: "e = (rd, files)" by (cases e)
  from Cons.prems(2) have m: "list_all (\<lambda>f. is_mapping (parsed h (path_join rd f)))
             (filter (selected h t st rd) files)"
    and rest: "list_all (\<lambda>p. is_mapping (parsed h p)) (candidates h t st (pre @ [(root_dir, before)]))"
    by (simp_all add: candidates_Cons e list_all_iff)
  from Cons.prems(1) obtain s where s: "load_files h t st rd files sc = Inr s"
    by (auto simp: e split: sum.splits)
  from load_files_mappings [OF assms(1) s m]
  have nf: "\<not> failed s" and r: "results s = merge_dir h t st rd files" by simp_all
  from Cons.prems(1) s nf
  have "run_loop h t st (pre @ (root_dir, before @ f # after) # post)
          (dict_update res (results s)) result (show_content s) = Inr (res', result', sc')"
    by (simp add: e)
  from Cons.IH [OF this rest] r show ?case by (simp add: e)
qed

lemma wf_mapping_is_mapping: "wf_mapping h p \<Longrightarrow> is_mapping (parsed h p)"
  by (auto simp: wf_mapping_def split: option.splits pyval.splits)

lemma wf_mapping_distinct: "wf_mapping h p \<Longrightarrow> distinct (map fst (file_dict h p))"
  by (auto simp: wf_mapping_def file_dict_def split: option.splits pyval.splits)

lemma map_of_dict_set: "map_of (dict_set d k v) = (map_of d)(k \<mapsto> v)"
  by (simp add: dict_set_def update_conv')

lemma map_of_dict_update:
  "distinct (map fst e) \<Longrightarrow> map_of (dict_update d e) = map_of d ++ map_of e"
proof (induction e arbitrary: d)
  case Nil
  then show ?case by (simp add: dict_update_def)
next
  case (Cons kv e)
  from Cons.prems have k: "fst kv \<notin> dom (map_of e)" and dist: "distinct (map fst e)"
    by (auto simp: dom_map_of_conv_image_fst)
  have "map_of (dict_update d (kv # e)) = map_of (dict_update (AList.update (fst kv) (snd kv) d) e)"
    by (simp add: dict_update_def)
  also have "\<dots> = (map_of d)(fst kv \<mapsto> snd kv) ++ map_of e"
    using Cons.IH [OF dist, of "AList.update (fst kv) (snd kv) d"] by (simp only: update_conv')
  also have "\<dots> = map_of d ++ map_of (kv # e)"
    using k by (cases kv) (simp add: map_add_upd_left)
  finally show ?case .
qed

lemma distinct_dict_update:
  "distinct (map fst d) \<Longrightarrow> distinct (map fst (dict_update d e))"
  unfolding dict_update_def
  by (induction e arbitrary: d) (simp_all add: distinct_update)

lemma distinct_fold_dict_update:
  "distinct (map fst d) \<Longrightarrow> distinct (map fst (fold (\<lambda>p acc. dict_update acc (g p)) ps d))"
  by (induction ps arbitrary: d) (simp_all add: distinct_dict_update)

lemma map_of_fold_dict_update:
  "list_all (\<lambda>p. distinct (map fst (g p))) ps \<Longrightarrow>
   map_of (fold (\<lambda>p acc. dict_update acc (g p)) ps d)
     = foldl (\<lambda>m p. m ++ map_of (g p)) (map_of d) ps"
  by (induction ps arbitrary: d) (simp_all add: map_of_dict_update)

lemma foldl_map_add_shift:
  "foldl (\<lambda>m p. m ++ G p) m0 ps = m0 ++ foldl (\<lambda>m p. m ++ G p) Map.empty ps"
proof (induction ps rule: rev_induct)
  case Nil
  then show ?case by simp
next
  case (snoc p ps)
  then show ?case by simp
qed

lemma foldl_map_add_concat:
  "foldl (\<lambda>m e. m ++ foldl (\<lambda>m p. m ++ G p) Map.empty (C e)) m0 es
     = foldl (\<lambda>m p. m ++ G p) m0 (concat (map C es))"
proof (induction es arbitrary: m0)
  case Nil
  then show ?case by simp
next
  case (Cons e es)
  have "m0 ++ foldl (\<lambda>m p. m ++ G p) Map.empty (C e) = foldl (\<lambda>m p. m ++ G p) m0 (C e)"
    by (rule foldl_map_add_shift [symmetric])
  with Cons show ?case by simp
qed

lemma dom_foldl_map_add:
  "dom (foldl (\<lambda>m p. m ++ G p) m0 ps) = dom m0 \<union> (\<Union>p\<in>set ps. dom (G p))"
  by (induction ps arbitrary: m0) auto

lemma merge_dir_distinct: "distinct (map fst (merge_dir h t st root_dir files))"
  unfolding merge_dir_def by (rule distinct_fold_dict_update) simp

lemma merge_dir_map:
  assumes "list_all (wf_mapping h) (map (path_join root_dir) (filter (selected h t st root_dir) files))"
  shows "map_of (merge_dir h t st root_dir files)
           = foldl (\<lambda>m p. m ++ map_of (file_dict h p)) Map.empty
               (map (path_join root_dir) (filter (selected h t st root_dir) files))"
proof -
  have "list_all (\<lambda>f. distinct (map fst (file_dict h (path_join root_dir f))))
          (filter (selected h t st root_dir) files)"
    using assms by (auto simp: list_all_iff dest: wf_mapping_distinct)
  from map_of_fold_dict_update [OF this, of "[]"] show ?thesis
    by (simp add: merge_dir_def foldl_map)
qed

lemma merge_dirs_map:
  assumes "list_all (wf_mapping h) (candidates h t st entries)"
  shows "map_of (merge_dirs h t st entries)
           = foldl (\<lambda>m p. m ++ map_of (file_dict h p)) Map.empty (candidates h t st entries)"
proof -
  have d: "list_all (\<lambda>e. distinct (map fst (merge_dir h t st (fst e) (snd e)))) entries"
    by (simp add: list_all_iff merge_dir_distinct)
  have "map_of (merge_dirs h t st entries)
          = foldl (\<lambda>m e. m ++ map_of (merge_dir h t st (fst e) (snd e))) Map.empty entries"
    using map_of_fold_dict_update [OF d, of "[]"] by (simp add: merge_dirs_def)
  also have "\<dots> = foldl (\<lambda>m e. m ++ foldl (\<lambda>m p. m ++ map_of (file_dict h p)) Map.empty
                        (map (path_join (fst e)) (filter (selected h t st (fst e)) (snd e))))
                     Map.empty entries"
  proof (rule foldl_cong)
    fix m e assume "e \<in> set entries"
    with assms have "list_all (wf_mapping h)
        (map (path_join (fst e)) (filter (selected h t st (fst e)) (snd e)))"
      by (auto simp: candidates_def list_all_iff)
    from merge_dir_map [OF this]
    show "m ++ map_of (merge_dir h t st (fst e) (snd e))
            = m ++ foldl (\<lambda>m p. m ++ map_of (file_dict h p)) Map.empty
                (map (path_join (fst e)) (filter (selected h t st (fst e)) (snd e)))"
      by simp
  qed simp_all
  also have "\<dots> = foldl (\<lambda>m p. m ++ map_of (file_dict h p)) Map.empty (candidates h t st entries)"
    unfolding candidates_def by (rule foldl_map_add_concat)
  finally show ?thesis .
qed

lemma foldl_map_add_unchanged:
  "list_all (\<lambda>q. G q k = None) ys \<Longrightarrow> foldl (\<lambda>m p. m ++ G p) m0 ys k = m0 k"
  by (induction ys arbitrary: m0) (simp_all add: map_add_def)

lemma foldl_map_add_last_writer:
  assumes "G p k = Some v" "list_all (\<lambda>q. G q k = None) ys"
  shows "foldl (\<lambda>m p. m ++ G p) m0 (xs @ p # ys) k = Some v"
  using assms by (simp add: foldl_map_add_unchanged)

lemma traverse_loop_prefix:
  "traverse_loop dp c ws = Inr ys \<Longrightarrow> \<exists>n. ys = map yielded (take n ws)"
proof (induction ws arbitrary: c ys)
  case Nil
  then show ?case by simp
next
  case (Cons w ws)
  obtain r ds fs where w: "w = (r, ds, fs)" by (cases w)
  from Cons.prems consider "ys = []"
    | zs where "traverse_loop dp (c + 1) ws = Inr zs" "ys = yielded w # zs"
    by (auto simp: w yielded_def Let_def split: sum.splits if_splits)
  then show ?case
  proof cases
    case 1
    then have "ys = map yielded (take 0 (w # ws))" by simp
    then show ?thesis by blast
  next
    case 2
    from Cons.IH [OF 2(1)] obtain n where "zs = map yielded (take n ws)" by blast
    with 2(2) have "ys = map yielded (take (Suc n) (w # ws))" by simp
    then show ?thesis by blast
  qed
qed

lemma traverse_dir_depth_sorted:
  assumes "traverse_dir_depth h sd dp = Inr entries"
  shows "sorted (map fst entries) \<and> list_all (\<lambda>e. sorted (snd e)) entries"
proof -
  from traverse_loop_prefix [OF assms [unfolded traverse_dir_depth_def]]
  obtain n where n: "entries = map yielded (take n (sort_key fst (fs_walk h sd)))" by blast
  have "map fst entries = take n (map fst (sort_key fst (fs_walk h sd)))"
    by (simp add: n take_map yielded_def comp_def)
  then have "sorted (map fst entries)" by simp
  moreover have "list_all (\<lambda>e. sorted (snd e)) entries"
    by (simp add: n list_all_iff yielded_def)
  ultimately show ?thesis by simp
qed

lemma demo_set_args_conf:
  "set_args demo_host (demo_task [(PStr ''dir'', PStr d)]) = Inr (None, Some (demo_settings d))" if "d \<noteq> []"
  using that
  by (simp add: set_args_def set_args_finish_def demo_task_def VALID_ARGUMENTS_def dict_get_def
        demo_settings_def)

lemma demo_candidates_conf:
  "candidates demo_host (demo_task [(PStr ''dir'', PStr ''conf'')]) (demo_settings ''conf'')
     demo_conf_entries
   = [''conf/a.yml'', ''conf/b.yml'', ''conf/empty.yml'', ''conf/extra/secret.yml'',
      ''conf/sub/c.yml'', ''conf/sub/main.yml'']"
  by (simp add: demo_eval demo_spec)

lemma demo_run_conf:
  "run demo_host (demo_task [(PStr ''dir'', PStr ''conf'')])
     = Inr [(PStr ''ansible_facts'',
             PDict [(PStr ''x'', PInt 3), (PStr ''y'', PInt 2),
                    (PStr ''token'', PInt 7), (PStr ''m'', PInt 0)]),
            (PStr ''_ansible_no_log'', PBool False)]"
  by (simp add: demo_eval)

lemma demo_file_dicts:
  "file_dict demo_host ''conf/a.yml'' = [(PStr ''x'', PInt 1), (PStr ''y'', PInt 1)]"
  "file_dict demo_host ''conf/b.yml'' = [(PStr ''y'', PInt 2)]"
  "file_dict demo_host ''conf/empty.yml'' = []"
  "file_dict demo_host ''conf/extra/secret.yml'' = [(PStr ''token'', PInt 7)]"
  "file_dict demo_host ''conf/sub/c.yml'' = [(PStr ''x'', PInt 3)]"
  "file_dict demo_host ''conf/sub/main.yml'' = [(PStr ''m'', PInt 0)]"
  by (simp_all add: demo_eval demo_spec)

text \<open>
  Claim C3. Take an invocation whose settings were assigned, whose directory exists and
  which returns a result, and let every file selected for loading parse to a mapping or
  to nothing. Then \<^verbatim>\<open>ansible_facts\<close> is the merged mapping (nested under \<^verbatim>\<open>name\<close> when
  one is given) and \<^verbatim>\<open>run\<close> sets no failure; the keys of the merged mapping are the
  union of the keys of the loaded files; a key has the value it has in the last loaded
  file that holds it, whole; and the files are loaded in the order of the yielded
  directories, which are sorted by path, each with its file names sorted.
\<close>

theorem merged_mapping_last_writer_wins:
  assumes "set_args h t = Inr (ret, Some st)"
      and "resolve_source_dir t (source_dir st) = Inr sd" and "fs_exists h sd"
      and "traverse_dir_depth h sd (depth st) = Inr entries"
      and "list_all (wf_mapping h) (candidates h t st entries)"
      and "run h t = Inr result"
  shows "(\<exists>facts. finalize (return_results_as_name st) (merge_dirs h t st entries) = Inr facts
            \<and> map_of result (PStr ''ansible_facts'') = Some (PDict facts))
       \<and> map_of result (PStr ''failed'') = map_of (super_run h) (PStr ''failed'')
       \<and> dom (map_of (merge_dirs h t st entries))
           = (\<Union>p\<in>set (candidates h t st entries). dom (map_of (file_dict h p)))
       \<and> (\<forall>xs p ys k v.
             candidates h t st entries = xs @ p # ys
             \<and> map_of (file_dict h p) k = Some v
             \<and> list_all (\<lambda>q. map_of (file_dict h q) k = None) ys
             \<longrightarrow> map_of (merge_dirs h t st entries) k = Some v)
       \<and> sorted (map fst entries) \<and> list_all (\<lambda>e. sorted (snd e)) entries"
proof -
  note mk = set_args_matcher_ok [OF assms(1)]
  have im: "list_all (\<lambda>p. is_mapping (parsed h p)) (candidates h t st entries)"
    using assms(5) by (auto simp: list_all_iff dest: wf_mapping_is_mapping)
  from assms(1-4,6) obtain res result' sc facts
    where rl: "run_loop h t st entries [] (super_run h) True = Inr (res, result', sc)"
      and fin: "finalize (return_results_as_name st) res = Inr facts"
      and result: "result = dict_set (dict_set result' (PStr ''ansible_facts'') (PDict facts))
                              (PStr ''_ansible_no_log'') (PBool sc)"
    by (auto simp: run_def split: sum.splits prod.splits)
  from run_loop_mappings [OF mk rl im]
  have res: "res = merge_dirs h t st entries" and r': "result' = super_run h"
    by (simp_all add: merge_dirs_def)
  have a: "\<exists>facts. finalize (return_results_as_name st) (merge_dirs h t st entries) = Inr facts
            \<and> map_of result (PStr ''ansible_facts'') = Some (PDict facts)"
    using fin res result by (auto simp: map_of_dict_set)
  have b: "map_of result (PStr ''failed'') = map_of (super_run h) (PStr ''failed'')"
    using result r' by (simp add: map_of_dict_set)
  note mm = merge_dirs_map [OF assms(5)]
  have c: "dom (map_of (merge_dirs h t st entries))
           = (\<Union>p\<in>set (candidates h t st entries). dom (map_of (file_dict h p)))"
    by (simp add: mm dom_foldl_map_add)
  have d: "map_of (merge_dirs h t st entries) k = Some v"
    if "candidates h t st entries = xs @ p # ys" "map_of (file_dict h p) k = Some v"
       "list_all (\<lambda>q. map_of (file_dict h q) k = None) ys" for xs p ys k v
    using foldl_map_add_last_writer [of "\<lambda>p. map_of (file_dict h p)", OF that(2,3)] that(1)
    by (simp add: mm)
  from a b c d traverse_dir_depth_sorted [OF assms(4)] show ?thesis by blast
qed


theorem merged_mapping_last_writer_wins_witness:
  "candidates demo_host (demo_task [(PStr ''dir'', PStr ''conf'')]) (demo_settings ''conf'')
     demo_conf_entries
     = [''conf/a.yml'', ''conf/b.yml'', ''conf/empty.yml'', ''conf/extra/secret.yml'']
       @ ''conf/sub/c.yml'' # [''conf/sub/main.yml'']
   \<and> map_of (file_dict demo_host ''conf/a.yml'') (PStr ''x'') = Some (PInt 1)
   \<and> map_of (file_dict demo_host ''conf/sub/c.yml'') (PStr ''x'') = Some (PInt 3)
   \<and> map_of (merge_dirs demo_host (demo_task [(PStr ''dir'', PStr ''conf'')])
               (demo_settings ''conf'') demo_conf_entries) (PStr ''x'') = Some (PInt 3)
   \<and> dom (map_of (merge_dirs demo_host (demo_task [(PStr ''dir'', PStr ''conf'')])
               (demo_settings ''conf'') demo_conf_entries))
       = {PStr ''x'', PStr ''y'', PStr ''token'', PStr ''m''}
   \<and> map_of [(PStr ''ansible_facts'',
                PDict [(PStr ''x'', PInt 3), (PStr ''y'', PInt 2),
                       (PStr ''token'', PInt 7), (PStr ''m'', PInt 0)]),
               (PStr ''_ansible_no_log'', PBool False)] (PStr ''ansible_facts'')
       = Some (PDict (merge_dirs demo_host (demo_task [(PStr ''dir'', PStr ''conf'')])
               (demo_settings ''conf'') demo_conf_entries))"
proof -
  let ?t = "demo_task [(PStr ''dir'', PStr ''conf'')]"
  let ?st = "demo_settings ''conf''"
  have sa: "set_args demo_host ?t = Inr (None, Some ?st)"
    by (rule demo_set_args_conf) simp
  have rs: "resolve_source_dir ?t (source_dir ?st) = Inr ''conf''"
    by (simp add: resolve_source_dir_def demo_task_def demo_settings_def)
  have ex: "fs_exists demo_host ''conf''"
    by (simp add: demo_host_def demo_walk_def)
  have tr: "traverse_dir_depth demo_host ''conf'' (depth ?st) = Inr demo_conf_entries"
    by (simp add: demo_eval demo_spec)
  have wf: "list_all (wf_mapping demo_host) (candidates demo_host ?t ?st demo_conf_entries)"
    unfolding demo_candidates_conf by (simp add: demo_eval demo_spec)
  note th = merged_mapping_last_writer_wins [OF sa rs ex tr wf demo_run_conf]
  have c: "candidates demo_host ?t ?st demo_conf_entries
     = [''conf/a.yml'', ''conf/b.yml'', ''conf/empty.yml'', ''conf/extra/secret.yml'']
       @ ''conf/sub/c.yml'' # [''conf/sub/main.yml'']"
    by (simp add: demo_candidates_conf)
  have x1: "map_of (file_dict demo_host ''conf/a.yml'') (PStr ''x'') = Some (PInt 1)"
    and x3: "map_of (file_dict demo_host ''conf/sub/c.yml'') (PStr ''x'') = Some (PInt 3)"
    and later: "list_all (\<lambda>q. map_of (file_dict demo_host q) (PStr ''x'') = None) [''conf/sub/main.yml'']"
    by (simp_all add: demo_file_dicts)
  from th c x3 later
  have m: "map_of (merge_dirs demo_host ?t ?st demo_conf_entries) (PStr ''x'') = Some (PInt 3)"
    by blast
  from th have "dom (map_of (merge_dirs demo_host ?t ?st demo_conf_entries))
      = (\<Union>p\<in>set (candidates demo_host ?t ?st demo_conf_entries). dom (map_of (file_dict demo_host p)))"
    by blast
  then have d: "dom (map_of (merge_dirs demo_host ?t ?st demo_conf_entries))
       = {PStr ''x'', PStr ''y'', PStr ''token'', PStr ''m''}"
    unfolding demo_candidates_conf by (auto simp: demo_file_dicts)
  from th have f: "map_of [(PStr ''ansible_facts'',
                PDict [(PStr ''x'', PInt 3), (PStr ''y'', PInt 2),
                       (PStr ''token'', PInt 7), (PStr ''m'', PInt 0)]),
               (PStr ''_ansible_no_log'', PBool False)] (PStr ''ansible_facts'')
       = Some (PDict (merge_dirs demo_host ?t ?st demo_conf_entries))"
    by (auto simp: finalize_def demo_settings_def)
  from c x1 x3 m d f show ?thesis by blast
qed

text \<open>
  Claim C1, as amended. Take an invocation whose settings were assigned, whose directory
  exists and which returns a result, and let \<open>filename\<close> in the yielded directory
  \<open>root_dir\<close> be the first selected file that parses to something other than a mapping
  or nothing. Then the result has \<^verbatim>\<open>failed\<close> true and the message that starts with
  the file's path, and it also has \<^verbatim>\<open>ansible_facts\<close>, the mapping merged from the
  directories before \<open>root_dir\<close> (nested under \<^verbatim>\<open>name\<close> when one is given), and
  \<^verbatim>\<open>_ansible_no_log\<close>.
\<close>

theorem not_a_mapping_fails_with_facts:
  assumes "set_args h t = Inr (ret, Some st)"
      and "resolve_source_dir t (source_dir st) = Inr sd" and "fs_exists h sd"
      and "traverse_dir_depth h sd (depth st)
             = Inr (pre @ (root_dir, before @ filename # after) # post)"
      and "list_all (\<lambda>p. is_mapping (parsed h p)) (candidates h t st (pre @ [(root_dir, before)]))"
      and "selected h t st root_dir filename"
      and "parsed h (path_join root_dir filename) = Some v" and "\<not> is_mapping (Some v)"
      and "run h t = Inr result"
  shows "map_of result (PStr ''failed'') = Some (PBool True)
       \<and> map_of result (PStr ''message'')
           = Some (PStr (path_join root_dir filename @ '' must be stored as a dictionary/hash''))
       \<and> (\<exists>facts. finalize (return_results_as_name st) (merge_dirs h t st pre) = Inr facts
              \<and> map_of result (PStr ''ansible_facts'') = Some (PDict facts))
       \<and> (\<exists>b. map_of result (PStr ''_ansible_no_log'') = Some (PBool b))"
proof -
  note mk = set_args_matcher_ok [OF assms(1)]
  from assms(1-4,9) obtain res result' sc facts
    where rl: "run_loop h t st (pre @ (root_dir, before @ filename # after) # post) []
                 (super_run h) True = Inr (res, result', sc)"
      and fin: "finalize (return_results_as_name st) res = Inr facts"
      and result: "result = dict_set (dict_set result' (PStr ''ansible_facts'') (PDict facts))
                              (PStr ''_ansible_no_log'') (PBool sc)"
    by (auto simp: run_def split: sum.splits prod.splits)
  from run_loop_first_bad [OF mk rl assms(5-8)]
  have res: "res = merge_dirs h t st pre"
    and r': "result' = dict_set (dict_set (super_run h) (PStr ''failed'') (PBool True))
                         (PStr ''message'')
                         (PStr (path_join root_dir filename @ '' must be stored as a dictionary/hash''))"
    by (simp_all add: merge_dirs_def)
  show ?thesis using fin res result r' by (auto simp: map_of_dict_set)
qed


lemma demo_run_bad_named:
  "run demo_host (demo_task [(PStr ''dir'', PStr ''bad''), (PStr ''name'', PStr ''v'')])
     = Inr [(PStr ''failed'', PBool True),
            (PStr ''message'', PStr ''bad/z/list.yml must be stored as a dictionary/hash''),
            (PStr ''ansible_facts'', PDict [(PStr ''v'', PDict [(PStr ''k'', PInt 1)])]),
            (PStr ''_ansible_no_log'', PBool True)]"
  by (simp add: demo_eval)

theorem not_a_mapping_fails_with_facts_witness:
  "selected demo_host (demo_task [(PStr ''dir'', PStr ''bad''), (PStr ''name'', PStr ''v'')])
     ((demo_settings ''bad'')\<lparr>return_results_as_name := PStr ''v''\<rparr>) ''bad/z'' ''list.yml''
   \<and> parsed demo_host (path_join ''bad/z'' ''list.yml'') = Some (PList [PInt 1, PInt 2])
   \<and> map_of [(PStr ''failed'', PBool True),
              (PStr ''message'', PStr ''bad/z/list.yml must be stored as a dictionary/hash''),
              (PStr ''ansible_facts'', PDict [(PStr ''v'', PDict [(PStr ''k'', PInt 1)])]),
              (PStr ''_ansible_no_log'', PBool True)] (PStr ''message'')
       = Some (PStr (path_join ''bad/z'' ''list.yml'' @ '' must be stored as a dictionary/hash''))
   \<and> finalize (PStr ''v'')
        (merge_dirs demo_host (demo_task [(PStr ''dir'', PStr ''bad''), (PStr ''name'', PStr ''v'')])
           ((demo_settings ''bad'')\<lparr>return_results_as_name := PStr ''v''\<rparr>) [(''bad'', [''ok.yml''])])
       = Inr [(PStr ''v'', PDict [(PStr ''k'', PInt 1)])]"
proof -
  let ?t = "demo_task [(PStr ''dir'', PStr ''bad''), (PStr ''name'', PStr ''v'')]"
  let ?st = "(demo_settings ''bad'')\<lparr>return_results_as_name := PStr ''v''\<rparr>"
  have sa: "set_args demo_host ?t = Inr (None, Some ?st)"
    by (simp add: set_args_def set_args_finish_def demo_task_def VALID_ARGUMENTS_def dict_get_def
          demo_settings_def)
  have rs: "resolve_source_dir ?t (source_dir ?st) = Inr ''bad''"
    by (simp add: resolve_source_dir_def demo_task_def demo_settings_def)
  have ex: "fs_exists demo_host ''bad''"
    by (simp add: demo_host_def demo_walk_def)
  have tr: "traverse_dir_depth demo_host ''bad'' (depth ?st)
              = Inr ([(''bad'', [''ok.yml''])] @ (''bad/z'', [] @ ''list.yml'' # [''more.yml'']) # [])"
    by (simp add: demo_eval demo_spec)
  have pm: "list_all (\<lambda>p. is_mapping (parsed demo_host p))
              (candidates demo_host ?t ?st ([(''bad'', [''ok.yml''])] @ [(''bad/z'', [])]))"
    by (simp add: demo_eval demo_spec)
  have sel: "selected demo_host ?t ?st ''bad/z'' ''list.yml''"
    by (simp add: demo_eval demo_spec)
  have pv: "parsed demo_host (path_join ''bad/z'' ''list.yml'') = Some (PList [PInt 1, PInt 2])"
    by (simp add: demo_eval demo_spec)
  have nm: "\<not> is_mapping (Some (PList [PInt 1, PInt 2]))" by simp
  have md: "merge_dirs demo_host ?t ?st [(''bad'', [''ok.yml''])] = [(PStr ''k'', PInt 1)]"
    by (simp add: demo_eval demo_spec)
  from not_a_mapping_fails_with_facts [OF sa rs ex tr pm sel pv nm demo_run_bad_named] sel pv md
  show ?thesis by (simp add: finalize_def demo_settings_def)
qed


text \<open>
  The claim as stated fails at the arguments \<^verbatim>\<open>{dir: bad}\<close>, where \<^verbatim>\<open>bad/z/list.yml\<close>
  holds a sequence: the result has the failure message and \<^verbatim>\<open>ansible_facts\<close>, with
  what \<^verbatim>\<open>bad/ok.yml\<close> contributed.
\<close>

theorem not_a_mapping_counterexample:
  "run demo_host (demo_task [(PStr ''dir'', PStr ''bad'')])
     = Inr [(PStr ''failed'', PBool True),
            (PStr ''message'', PStr ''bad/z/list.yml must be stored as a dictionary/hash''),
            (PStr ''ansible_facts'', PDict [(PStr ''k'', PInt 1)]),
            (PStr ''_ansible_no_log'', PBool True)]"
  by (simp add: demo_eval)


subsection \<open>The log flag\<close>

text \<open>
  Claim C2, at the directory \<^verbatim>\<open>conf\<close>. With depth \<open>1\<close> the three files loaded are all
  safe to show, and \<^verbatim>\<open>_ansible_no_log\<close> is true; without a limit \<^verbatim>\<open>secret.yml\<close>,
  whose flag is false, is loaded as well, and \<^verbatim>\<open>_ansible_no_log\<close> is false. The field
  is \<^verbatim>\<open>self.show_content\<close> itself, not its negation.
\<close>

theorem no_log_flag_inverted:
  "run demo_host (demo_task [(PStr ''dir'', PStr ''conf''), (PStr ''depth'', PInt 1)])
     = Inr [(PStr ''ansible_facts'', PDict [(PStr ''x'', PInt 1), (PStr ''y'', PInt 2)]),
            (PStr ''_ansible_no_log'', PBool True)]
   \<and> run demo_host (demo_task [(PStr ''dir'', PStr ''conf'')])
     = Inr [(PStr ''ansible_facts'',
             PDict [(PStr ''x'', PInt 3), (PStr ''y'', PInt 2),
                    (PStr ''token'', PInt 7), (PStr ''m'', PInt 0)]),
            (PStr ''_ansible_no_log'', PBool False)]"
  by (simp add: demo_eval)

end
